theory Spec2Isabelle
  imports Main "HOL-Library.AList"
begin

section \<open>JavaScript values and objects\<close>

text \<open>
  The values that travel through the collection wrapper: primitives and nested plain
  objects. Numbers are modelled as integers; the wrapper never computes with them, it
  only tests them for truthiness and hands them to the store client.
\<close>

datatype jsval =
    Undefined
  | Null
  | Bool bool
  | Num int
  | Str string
  | Obj "(string \<times> jsval) list"

text \<open>JavaScript truthiness, as used by \<^verbatim>\<open>if (x)\<close>, \<^verbatim>\<open>!x\<close> and \<^verbatim>\<open>x ? a : b\<close>.\<close>

fun truthy :: "jsval \<Rightarrow> bool" where
  "truthy Undefined = False"
| "truthy Null = False"
| "truthy (Bool b) = b"
| "truthy (Num n) = (n \<noteq> 0)"
| "truthy (Str s) = (s \<noteq> [])"
| "truthy (Obj ps) = True"

text \<open>
  An object has own data properties, in creation order, and the data properties it
  inherits through its prototype chain. Accessor properties of \<^verbatim>\<open>Object.prototype\<close> are
  outside the model, and every own property counts as enumerable.
\<close>

record jsobject =
  own :: "(string \<times> jsval) list"
  inherited :: "(string \<times> jsval) list"

definition emptyObject :: jsobject where
  "emptyObject = \<lparr>own = [], inherited = []\<rparr>"

definition getOwnPropertyNames :: "jsobject \<Rightarrow> string list" where
  "getOwnPropertyNames ob = map fst (own ob)"

text \<open>\<^verbatim>\<open>prop in ob\<close>: own or inherited.\<close>

definition js_in :: "string \<Rightarrow> jsobject \<Rightarrow> bool" where
  "js_in prop ob = (prop \<in> set (map fst (own ob)) \<or> prop \<in> set (map fst (inherited ob)))"

text \<open>\<^verbatim>\<open>ob[prop]\<close>: the own property shadows the inherited one; a missing one is undefined.\<close>

definition getProp :: "jsobject \<Rightarrow> string \<Rightarrow> jsval" where
  "getProp ob prop =
     (case map_of (own ob) prop of
        Some v \<Rightarrow> v
      | None \<Rightarrow> (case map_of (inherited ob) prop of Some v \<Rightarrow> v | None \<Rightarrow> Undefined))"

text \<open>\<^verbatim>\<open>ob[prop] = v\<close>: overwrite in place, or append a new own property.\<close>

definition setProp :: "jsobject \<Rightarrow> string \<Rightarrow> jsval \<Rightarrow> jsobject" where
  "setProp ob prop v = ob\<lparr>own := AList.update prop v (own ob)\<rparr>"

text \<open>ASCII lower-casing; \<^verbatim>\<open>toLocaleLowerCase\<close> agrees with it on ASCII shape names.\<close>

definition toLowerChar :: "char \<Rightarrow> char" where
  "toLowerChar ch =
     (let n = (of_char ch :: nat) in if 65 \<le> n \<and> n \<le> 90 then char_of (n + 32) else ch)"

definition toLocaleLowerCase :: "string \<Rightarrow> string" where
  "toLocaleLowerCase s = map toLowerChar s"

section \<open>The collection wrapper\<close>

text \<open>
  A \<^verbatim>\<open>Type\<close> is a constructor function: it has a \<^verbatim>\<open>name\<close>, and
  \<^verbatim>\<open>new t.prototype.constructor()\<close> yields a blank instance. The interface declaration is
  not part of the sources at hand, so the blank instance is carried as data.
\<close>

record Type =
  name :: string
  newInstance :: jsobject

datatype error =
    NoTypesPassedIn
  | InvalidTypesPassedIn
  | WhereAndOrderInSameQuery
  | PagingOptionsRequired
  | IDRequired
  | DocumentAlreadyExists
  | TooManyObjects
  | CouldNotDeriveUpdateType
  | TypeError
  | InvalidDocumentPath
  | InvalidDocumentData
  | InvalidQueryArgument

record Collection =
  types :: "Type list"
  collectionName :: string
  isSingleType :: bool

text \<open>\<^verbatim>\<open>validate\<close>, lines 32-45.\<close>

definition validate :: "Collection \<Rightarrow> error + unit" where
  "validate c =
     (if length (types c) < 1 then Inl NoTypesPassedIn
      else if \<not> isSingleType c \<and> (\<exists>t \<in> set (types c). \<not> js_in ''type'' (newInstance t))
      then Inl InvalidTypesPassedIn
      else Inr ())"

text \<open>
  The constructor, lines 22-30: it records the types and the collection name, sets
  \<^verbatim>\<open>isSingleType\<close> and validates. The store client it creates from the settings is the
  state that the operations below take and return.
\<close>

definition newCollection :: "Type list \<Rightarrow> string \<Rightarrow> error + Collection" where
  "newCollection ts cname =
     (let c = \<lparr>types = ts, collectionName = cname, isSingleType = (length ts = 1)\<rparr>
      in case validate c of Inl e \<Rightarrow> Inl e | Inr u \<Rightarrow> Inr c)"

section \<open>The update projector\<close>

text \<open>
  Lines 274-283 of \<^verbatim>\<open>assembleUpdateObject\<close>: the type the update is projected on. In
  single-type mode it is \<^verbatim>\<open>this.types[0]\<close> (undefined on an empty array); otherwise
  \<^verbatim>\<open>find\<close> returns the first type whose lower-cased name is strictly equal to the
  payload's \<^verbatim>\<open>type\<close>.
\<close>

definition typeMatches :: "jsobject \<Rightarrow> Type \<Rightarrow> bool" where
  "typeMatches partialObject t =
     (js_in ''type'' partialObject \<and>
      Str (toLocaleLowerCase (name t)) = getProp partialObject ''type'')"

definition updateType :: "Collection \<Rightarrow> jsobject \<Rightarrow> Type option" where
  "updateType c partialObject =
     (if isSingleType c then (case types c of [] \<Rightarrow> None | t # ts \<Rightarrow> Some t)
      else find (typeMatches partialObject) (types c))"

text \<open>The body of the \<^verbatim>\<open>forEach\<close> of lines 293-301, for one property name.\<close>

definition copyProp :: "jsobject \<Rightarrow> string list \<Rightarrow> string \<Rightarrow> jsobject \<Rightarrow> jsobject" where
  "copyProp partialObject saveObjectProps prop saveObject =
     (if prop \<noteq> ''type'' \<and> prop \<in> set saveObjectProps \<and> js_in prop partialObject
      then setProp saveObject prop (getProp partialObject prop)
      else saveObject)"

text \<open>\<^verbatim>\<open>assembleUpdateObject\<close>, lines 269-304.\<close>

definition assembleUpdateObject :: "Collection \<Rightarrow> jsobject \<Rightarrow> error + jsobject" where
  "assembleUpdateObject c partialObject =
     (let partialObjectProps = getOwnPropertyNames partialObject in
      case updateType c partialObject of
        None \<Rightarrow> Inl CouldNotDeriveUpdateType
      | Some t \<Rightarrow>
          (let saveObjectProps = getOwnPropertyNames (newInstance t) in
           Inr (fold (copyProp partialObject saveObjectProps) partialObjectProps emptyObject)))"


section \<open>Queries\<close>

text \<open>
  The option types of \<^verbatim>\<open>query-options.type.ts\<close>. A field reference is a name, a field
  path, or the document id (\<^verbatim>\<open>FieldPath.documentId()\<close>); comparison operators are passed
  to the store as they are.
\<close>

datatype fieldRef = FieldName string | FieldPath "string list" | DocumentId

datatype direction = Asc | Desc

datatype operator = OpAnd | OpOr

record PagingOptions =
  startAfter :: jsval
  limit :: int

record WhereClause =
  field :: fieldRef
  clauseValue :: jsval
  operation :: string

record WhereOptions =
  whereClauses :: "WhereClause list"
  operator :: "operator option"
  wherePaging :: "PagingOptions option"

record OrderOptions =
  orderField :: string
  orderDirection :: direction
  orderPaging :: "PagingOptions option"

record QueryOptions =
  whereOptions :: "WhereOptions option"
  orderOptions :: "OrderOptions option"
  pagingOptions :: "PagingOptions option"

definition STANDARD :: QueryOptions where
  "STANDARD = \<lparr>whereOptions = None, orderOptions = None,
                pagingOptions = Some \<lparr>startAfter = Null, limit = 10\<rparr>\<rparr>"

text \<open>
  A query is the collection it starts from and the builder calls applied to it, in
  order. A cursor is either a document snapshot or a bare field value.
\<close>

type_synonym docData = "(string \<times> jsval) list"

record DocumentSnapshot =
  snapCollection :: string
  snapId :: string
  snapData :: "docData option"

datatype filter = FilterWhere fieldRef string jsval | FilterOr "filter list"

datatype cursor = CursorSnapshot DocumentSnapshot | CursorValue jsval

datatype queryStep =
    Where fieldRef string jsval
  | WhereFilter filter
  | OrderBy fieldRef "direction option"
  | StartAfter cursor
  | Limit int

record Query =
  queryCollection :: string
  steps :: "queryStep list"

definition addStep :: "Query \<Rightarrow> queryStep \<Rightarrow> Query" where
  "addStep ref st = ref\<lparr>steps := steps ref @ [st]\<rparr>"

section \<open>The document store\<close>

text \<open>
  The store client is an external collaborator. Its state is the documents it holds, keyed
  by collection name and document id, the writes of bulk writers that were never closed,
  the supply of automatic ids, and the trace of the calls made to it, oldest first.

  The client checks its arguments and throws on those it does not accept: a document path
  (\<^verbatim>\<open>collection(name).doc(id)\<close>), the data of a write, and a call of the query builder with
  a caller's value, on the query built so far. These checks are the client's own and not
  the wrapper's: the client carries them as three predicates, and every statement below
  holds whatever they are. The store is taken to be reachable, and the collection name of
  an accessor to name a collection.
\<close>

datatype storeCall =
    DocGet string string
  | DocSet string string docData
  | CollectionAdd string string docData
  | BulkSet string string docData
  | BulkClose

type_synonym bulkWriter = "(string \<times> string \<times> docData) list"

record Firestore =
  stored :: "string \<times> string \<Rightarrow> docData option"
  unflushed :: bulkWriter
  autoId :: "nat \<Rightarrow> string"
  issued :: nat
  calls :: "storeCall list"
  acceptsPath :: "string \<times> string \<Rightarrow> bool"
  acceptsData :: "docData \<Rightarrow> bool"
  acceptsStep :: "Query \<Rightarrow> queryStep \<Rightarrow> bool"

text \<open>The documents of the store: a document exists only at a path the client accepts.\<close>

definition docs :: "Firestore \<Rightarrow> string \<times> string \<Rightarrow> docData option" where
  "docs db k = (if acceptsPath db k then stored db k else None)"

text \<open>
  \<^verbatim>\<open>collection(name).doc(id)\<close>: the client accepts only a string as a document path, and
  only one that names a document of the collection; it throws otherwise.
\<close>

definition doc :: "Firestore \<Rightarrow> string \<Rightarrow> jsval \<Rightarrow> error + string" where
  "doc db cname v =
     (case v of
        Str s \<Rightarrow> (if acceptsPath db (cname, s) then Inr s else Inl InvalidDocumentPath)
      | Undefined \<Rightarrow> Inl InvalidDocumentPath
      | Null \<Rightarrow> Inl InvalidDocumentPath
      | Bool b \<Rightarrow> Inl InvalidDocumentPath
      | Num n \<Rightarrow> Inl InvalidDocumentPath
      | Obj ps \<Rightarrow> Inl InvalidDocumentPath)"

text \<open>\<^verbatim>\<open>collection(name).doc()\<close>: a reference with the next automatic id.\<close>

definition docAuto :: "Firestore \<Rightarrow> string \<times> Firestore" where
  "docAuto db = (autoId db (issued db), db\<lparr>issued := Suc (issued db)\<rparr>)"

text \<open>\<^verbatim>\<open>docRef.get()\<close>: one read.\<close>

definition docGet :: "string \<Rightarrow> string \<Rightarrow> Firestore \<Rightarrow> DocumentSnapshot \<times> Firestore" where
  "docGet cname i db =
     (\<lparr>snapCollection = cname, snapId = i, snapData = docs db (cname, i)\<rparr>,
      db\<lparr>calls := calls db @ [DocGet cname i]\<rparr>)"

text \<open>\<^verbatim>\<open>docRef.set(data)\<close>: one write, replacing the document; it throws on data the client
  does not accept.\<close>

definition docSet :: "string \<Rightarrow> string \<Rightarrow> docData \<Rightarrow> Firestore \<Rightarrow> error + Firestore" where
  "docSet cname i d db =
     (if acceptsData db d
      then Inr (db\<lparr>stored := (stored db)((cname, i) \<mapsto> d),
                   calls := calls db @ [DocSet cname i d]\<rparr>)
      else Inl InvalidDocumentData)"

text \<open>
  \<^verbatim>\<open>collection(name).add(data)\<close>: a reference with a fresh automatic id, then a write at
  it; the id is returned.
\<close>

definition collectionAdd ::
  "string \<Rightarrow> docData \<Rightarrow> Firestore \<Rightarrow> (error + string) \<times> Firestore" where
  "collectionAdd cname d db =
     (let (i, db1) = docAuto db
      in if acceptsData db1 d
         then (Inr i, db1\<lparr>stored := (stored db1)((cname, i) \<mapsto> d),
                          calls := calls db1 @ [CollectionAdd cname i d]\<rparr>)
         else (Inl InvalidDocumentData, db1))"

text \<open>
  A bulk writer holds the writes it was given. \<^verbatim>\<open>writer.set(docRef, data)\<close> checks the data
  and adds a write; \<^verbatim>\<open>writer.close()\<close> sends the writes, in the order given.
\<close>

definition bulkSet ::
  "string \<Rightarrow> string \<Rightarrow> docData \<Rightarrow> bulkWriter \<Rightarrow> Firestore \<Rightarrow> error + bulkWriter \<times> Firestore" where
  "bulkSet cname i d writer db =
     (if acceptsData db d
      then Inr (writer @ [(cname, i, d)], db\<lparr>calls := calls db @ [BulkSet cname i d]\<rparr>)
      else Inl InvalidDocumentData)"

definition bulkClose :: "bulkWriter \<Rightarrow> Firestore \<Rightarrow> Firestore" where
  "bulkClose writer db =
     db\<lparr>stored := fold (\<lambda>w st. st((fst w, fst (snd w)) \<mapsto> snd (snd w))) writer (stored db),
        calls := calls db @ [BulkClose]\<rparr>"

section \<open>Creating documents\<close>

text \<open>
  \<^verbatim>\<open>const { id, ...saveObject } = object\<close>, line 73: \<^verbatim>\<open>id\<close> is read through the
  prototype chain, the rest holds the own properties other than \<^verbatim>\<open>id\<close>.
\<close>

definition restWithoutId :: "jsobject \<Rightarrow> docData" where
  "restWithoutId ob = filter (\<lambda>kv. fst kv \<noteq> ''id'') (own ob)"

text \<open>\<^verbatim>\<open>addSingle\<close>, lines 69-91. The result is the returned object or the error thrown.\<close>

definition addSingle ::
  "Collection \<Rightarrow> jsobject \<Rightarrow> bool \<Rightarrow> Firestore \<Rightarrow> (error + jsobject) \<times> Firestore" where
  "addSingle c object hasID db =
     (let i = getProp object ''id''; saveObject = restWithoutId object in
      if hasID then
        (if \<not> truthy i then (Inl IDRequired, db)
         else case doc db (collectionName c) i of
           Inl e \<Rightarrow> (Inl e, db)
         | Inr docRef \<Rightarrow>
             (let (snap, db1) = docGet (collectionName c) docRef db in
              if snapData snap \<noteq> None then (Inl DocumentAlreadyExists, db1)
              else (case docSet (collectionName c) docRef saveObject db1 of
                      Inl e \<Rightarrow> (Inl e, db1)
                    | Inr db2 \<Rightarrow> (Inr object, db2))))
      else
        (case collectionAdd (collectionName c) saveObject db of
           (Inl e, db1) \<Rightarrow> (Inl e, db1)
         | (Inr resId, db1) \<Rightarrow>
             (Inr (setProp object ''id'' (if truthy i then i else Str resId)), db1)))"

text \<open>
  The \<^verbatim>\<open>forEach\<close> of \<^verbatim>\<open>addMany\<close>, lines 110-115: each object is written under its own
  \<^verbatim>\<open>id\<close> when that is truthy, under an automatic id otherwise, and the data is the
  spread \<^verbatim>\<open>{ ...obj }\<close>, all own properties. A throw of \<^verbatim>\<open>doc\<close> or \<^verbatim>\<open>set\<close> ends the loop.
\<close>

fun addManyLoop ::
  "string \<Rightarrow> jsobject list \<Rightarrow> bulkWriter \<Rightarrow> Firestore \<Rightarrow> (error + unit) \<times> bulkWriter \<times> Firestore" where
  "addManyLoop cname [] writer db = (Inr (), writer, db)"
| "addManyLoop cname (ob # obs) writer db =
     (case (if truthy (getProp ob ''id'')
            then (case doc db cname (getProp ob ''id'') of
                    Inl e \<Rightarrow> Inl e
                  | Inr i \<Rightarrow> Inr (i, db))
            else Inr (docAuto db)) of
        Inl e \<Rightarrow> (Inl e, writer, db)
      | Inr (docRef, db1) \<Rightarrow>
          (case bulkSet cname docRef (own ob) writer db1 of
             Inl e \<Rightarrow> (Inl e, writer, db1)
           | Inr (writer1, db2) \<Rightarrow> addManyLoop cname obs writer1 db2))"

text \<open>
  \<^verbatim>\<open>addMany\<close>, lines 104-118. When the loop throws, the writer is never closed; the writes
  it holds are recorded as unflushed.
\<close>

definition addMany :: "Collection \<Rightarrow> jsobject list \<Rightarrow> Firestore \<Rightarrow> (error + unit) \<times> Firestore" where
  "addMany c objects db =
     (if length objects > 500 then (Inl TooManyObjects, db)
      else case addManyLoop (collectionName c) objects [] db of
             (Inl e, writer, db1) \<Rightarrow> (Inl e, db1\<lparr>unflushed := unflushed db1 @ writer\<rparr>)
           | (Inr u, writer, db1) \<Rightarrow> (Inr (), bulkClose writer db1))"

section \<open>Query assembly\<close>

text \<open>A call of the query builder with a caller's value: the client may refuse it.\<close>

definition applyStep :: "Firestore \<Rightarrow> Query \<Rightarrow> queryStep \<Rightarrow> error + Query" where
  "applyStep db ref st =
     (if acceptsStep db ref st then Inr (addStep ref st) else Inl InvalidQueryArgument)"

text \<open>\<^verbatim>\<open>getDocumentSnapshot\<close>, lines 188-194.\<close>

definition getDocumentSnapshot ::
  "string \<Rightarrow> jsval \<Rightarrow> Firestore \<Rightarrow> (error + DocumentSnapshot) \<times> Firestore" where
  "getDocumentSnapshot cname i db =
     (case doc db cname i of
        Inl e \<Rightarrow> (Inl e, db)
      | Inr docRef \<Rightarrow> (let (snap, db1) = docGet cname docRef db in (Inr snap, db1)))"

text \<open>The \<^verbatim>\<open>forEach\<close> of lines 228-230: one \<^verbatim>\<open>where\<close> per clause, in list order.\<close>

fun whereEach :: "Firestore \<Rightarrow> WhereClause list \<Rightarrow> Query \<Rightarrow> error + Query" where
  "whereEach db [] ref = Inr ref"
| "whereEach db (wc # wcs) ref =
     (case applyStep db ref (Where (field wc) (operation wc) (clauseValue wc)) of
        Inl e \<Rightarrow> Inl e
      | Inr ref1 \<Rightarrow> whereEach db wcs ref1)"

text \<open>Lines 209-237: the branch taken when \<^verbatim>\<open>whereOptions\<close> is present.\<close>

definition whereBranch ::
  "string \<Rightarrow> Query \<Rightarrow> WhereOptions \<Rightarrow> Firestore \<Rightarrow> (error + Query) \<times> Firestore" where
  "whereBranch cname ref wo db =
     (case wherePaging wo of
        None \<Rightarrow> (Inl PagingOptionsRequired, db)
      | Some po \<Rightarrow>
          (case (if truthy (startAfter po)
                 then (case getDocumentSnapshot cname (startAfter po) db of
                         (Inl e, db1) \<Rightarrow> (Inl e, db1)
                       | (Inr snap, db1) \<Rightarrow> (Inr (Some snap), db1))
                 else (Inr None, db)) of
             (Inl e, db1) \<Rightarrow> (Inl e, db1)
           | (Inr lastSnap, db1) \<Rightarrow>
               (case (if operator wo = Some OpOr
                      then applyStep db1 ref (WhereFilter (FilterOr
                             (map (\<lambda>wc. FilterWhere (field wc) (operation wc) (clauseValue wc))
                                (whereClauses wo))))
                      else whereEach db1 (whereClauses wo) ref) of
                  Inl e \<Rightarrow> (Inl e, db1)
                | Inr ref1 \<Rightarrow>
                    (case (case lastSnap of
                             Some snap \<Rightarrow> applyStep db1 ref1 (StartAfter (CursorSnapshot snap))
                           | None \<Rightarrow> Inr ref1) of
                       Inl e \<Rightarrow> (Inl e, db1)
                     | Inr ref2 \<Rightarrow> (Inr (addStep ref2 (Limit (limit po))), db1)))))"

text \<open>Lines 239-252: the branch taken when \<^verbatim>\<open>orderOptions\<close> is present.\<close>

definition orderBranch :: "Firestore \<Rightarrow> Query \<Rightarrow> OrderOptions \<Rightarrow> error + Query" where
  "orderBranch db ref oo =
     (case orderPaging oo of
        None \<Rightarrow> Inl PagingOptionsRequired
      | Some po \<Rightarrow>
          (case applyStep db ref (OrderBy (FieldName (orderField oo)) (Some (orderDirection oo))) of
             Inl e \<Rightarrow> Inl e
           | Inr ref1 \<Rightarrow>
               (case (if truthy (startAfter po)
                      then applyStep db ref1 (StartAfter (CursorValue (startAfter po)))
                      else Inr ref1) of
                  Inl e \<Rightarrow> Inl e
                | Inr ref2 \<Rightarrow> Inr (addStep ref2 (Limit (limit po))))))"

text \<open>
  Lines 254-261: the branch taken when only \<^verbatim>\<open>pagingOptions\<close> is present. The order by
  document id takes no value of the caller's; the cursor does.
\<close>

definition pagingBranch :: "Firestore \<Rightarrow> Query \<Rightarrow> PagingOptions \<Rightarrow> error + Query" where
  "pagingBranch db ref po =
     (let ref1 = addStep ref (OrderBy DocumentId None) in
      case (if truthy (startAfter po)
            then applyStep db ref1 (StartAfter (CursorValue (startAfter po)))
            else Inr ref1) of
        Inl e \<Rightarrow> Inl e
      | Inr ref2 \<Rightarrow> Inr (addStep ref2 (Limit (limit po))))"

text \<open>
  \<^verbatim>\<open>assembleQuery\<close>, lines 196-267. The options may be null: the optional chaining of
  lines 200, 208 and 238 lets that pass, and the plain access of line 253 then throws.
\<close>

definition assembleQuery ::
  "string \<Rightarrow> QueryOptions option \<Rightarrow> Firestore \<Rightarrow> (error + Query) \<times> Firestore" where
  "assembleQuery cname options db =
     (if (case options of None \<Rightarrow> False
          | Some opts \<Rightarrow> whereOptions opts \<noteq> None \<and> orderOptions opts \<noteq> None)
      then (Inl WhereAndOrderInSameQuery, db)
      else
        (let ref = \<lparr>queryCollection = cname, steps = []\<rparr> in
         case (case options of None \<Rightarrow> None | Some opts \<Rightarrow> whereOptions opts) of
           Some wo \<Rightarrow> whereBranch cname ref wo db
         | None \<Rightarrow>
             (case (case options of None \<Rightarrow> None | Some opts \<Rightarrow> orderOptions opts) of
                Some oo \<Rightarrow> (orderBranch db ref oo, db)
              | None \<Rightarrow>
                  (case options of
                     None \<Rightarrow> (Inl TypeError, db)
                   | Some opts \<Rightarrow>
                       (case pagingOptions opts of
                          Some po \<Rightarrow> (pagingBranch db ref po, db)
                        | None \<Rightarrow>
                            (Inr (addStep (addStep ref (OrderBy DocumentId (Some Asc))) (Limit 10)),
                             db))))))"

section \<open>Auxiliary notions for the statements\<close>

text \<open>
  A record that \<^verbatim>\<open>addMany\<close> can write: the client accepts its own properties as document
  data, and its \<^verbatim>\<open>id\<close> is falsy or a string that the client accepts as a document path of
  the collection.
\<close>

definition recordAccepted :: "Firestore \<Rightarrow> string \<Rightarrow> jsobject \<Rightarrow> bool" where
  "recordAccepted db cname ob =
     (acceptsData db (own ob) \<and>
      (case getProp ob ''id'' of
         Str s \<Rightarrow> s = [] \<or> acceptsPath db (cname, s)
       | Undefined \<Rightarrow> True
       | Null \<Rightarrow> True
       | Bool b \<Rightarrow> \<not> b
       | Num n \<Rightarrow> n = 0
       | Obj ps \<Rightarrow> False))"

text \<open>The document data a store call writes, if it is a write.\<close>

fun writeData :: "storeCall \<Rightarrow> docData option" where
  "writeData (DocGet cn i) = None"
| "writeData (DocSet cn i d) = Some d"
| "writeData (CollectionAdd cn i d) = Some d"
| "writeData (BulkSet cn i d) = Some d"
| "writeData BulkClose = None"

section \<open>A sample client\<close>

text \<open>
  The checks of the sample client follow those the Node client of the store makes on the
  calls of the wrapper. A document path is a non-empty string without \<^verbatim>\<open>//\<close> that, split
  at the slashes, has an odd number of components.
\<close>

fun splitOn :: "char \<Rightarrow> string \<Rightarrow> string list" where
  "splitOn sep [] = [[]]"
| "splitOn sep (ch # s) =
     (if ch = sep then [] # splitOn sep s
      else (case splitOn sep s of [] \<Rightarrow> [[ch]] | seg # segs \<Rightarrow> (ch # seg) # segs))"

fun twiceInARow :: "char \<Rightarrow> string \<Rightarrow> bool" where
  "twiceInARow sep (a # b # s) = ((a = sep \<and> b = sep) \<or> twiceInARow sep (b # s))"
| "twiceInARow sep s = False"

definition nodeAcceptsPath :: "string \<times> string \<Rightarrow> bool" where
  "nodeAcceptsPath k =
     (snd k \<noteq> [] \<and> \<not> twiceInARow (CHR ''/'') (snd k) \<and>
      odd (length (filter (\<lambda>seg. seg \<noteq> []) (splitOn (CHR ''/'') (snd k)))))"

text \<open>
  Document data: no field name is empty, no value is undefined, and no value lies deeper
  than 20 levels. The first argument counts the levels left.
\<close>

fun storableAt :: "nat \<Rightarrow> jsval \<Rightarrow> bool" where
  "storableAt 0 v = False"
| "storableAt (Suc n) Undefined = False"
| "storableAt (Suc n) (Obj ps) = list_all (\<lambda>kv. fst kv \<noteq> [] \<and> storableAt n (snd kv)) ps"
| "storableAt (Suc n) v = True"

definition nodeAcceptsData :: "docData \<Rightarrow> bool" where
  "nodeAcceptsData d = list_all (\<lambda>kv. fst kv \<noteq> [] \<and> storableAt 20 (snd kv)) d"

text \<open>
  A field is a name without \<^verbatim>\<open>*~/[]\<close> whose dot-separated parts are non-empty, a field path
  of non-empty segments, or the document id.
\<close>

fun nodeFieldOk :: "fieldRef \<Rightarrow> bool" where
  "nodeFieldOk (FieldName f) =
     (f \<noteq> [] \<and> list_all (\<lambda>ch. ch \<notin> set ''*~/[]'') f \<and>
      list_all (\<lambda>seg. seg \<noteq> []) (splitOn (CHR ''.'') f))"
| "nodeFieldOk (FieldPath segs) = (segs \<noteq> [] \<and> list_all (\<lambda>seg. seg \<noteq> []) segs)"
| "nodeFieldOk DocumentId = True"

fun queryValueOk :: "jsval \<Rightarrow> bool" where
  "queryValueOk Undefined = False"
| "queryValueOk (Obj ps) = nodeAcceptsData ps"
| "queryValueOk v = True"

fun plainDocumentId :: "jsval \<Rightarrow> bool" where
  "plainDocumentId (Str s) = (s \<noteq> [] \<and> CHR ''/'' \<notin> set s)"
| "plainDocumentId v = False"

text \<open>
  A comparison: a known operator on a valid field; null only under equality; the operators
  that need an array are refused, the values here having none; the document id, also under
  its name \<^verbatim>\<open>__name__\<close>, is compared with a plain document id.
\<close>

fun namesDocumentId :: "fieldRef \<Rightarrow> bool" where
  "namesDocumentId DocumentId = True"
| "namesDocumentId (FieldName f) = (f = ''__name__'')"
| "namesDocumentId (FieldPath segs) = (segs = [''__name__''])"

definition nodeComparisonOk :: "fieldRef \<Rightarrow> string \<Rightarrow> jsval \<Rightarrow> bool" where
  "nodeComparisonOk f op v =
     (nodeFieldOk f \<and>
      op \<in> set [''<'', ''<='', ''=='', ''='', ''!='', ''>='', ''>'', ''array-contains''] \<and>
      queryValueOk v \<and>
      (if v = Null then op \<in> set [''=='', ''='', ''!=''] else True) \<and>
      (if namesDocumentId f then op \<noteq> ''array-contains'' \<and> plainDocumentId v else True))"

fun nodeFilterOk :: "filter \<Rightarrow> bool" where
  "nodeFilterOk (FilterWhere f op v) = nodeComparisonOk f op v"
| "nodeFilterOk (FilterOr fs) = list_all nodeFilterOk fs"

text \<open>
  A snapshot cursor must hold a value for every field the query orders by: the fields of
  its \<^verbatim>\<open>orderBy\<close> calls and the fields of its inequalities. A value cursor needs an
  \<^verbatim>\<open>orderBy\<close> to refer to, and a plain document id where that orders by document id.
  After a cursor the client takes no further \<^verbatim>\<open>where\<close> or \<^verbatim>\<open>orderBy\<close>.
\<close>

fun filterInequalities :: "filter \<Rightarrow> fieldRef list" where
  "filterInequalities (FilterWhere f op v) =
     (if op \<in> set [''<'', ''<='', ''!='', ''>='', ''>''] then [f] else [])"
| "filterInequalities (FilterOr fs) = concat (map filterInequalities fs)"

fun stepOrders :: "queryStep \<Rightarrow> fieldRef list" where
  "stepOrders (OrderBy f d) = [f]"
| "stepOrders st = []"

fun stepInequalities :: "queryStep \<Rightarrow> fieldRef list" where
  "stepInequalities (Where f op v) = filterInequalities (FilterWhere f op v)"
| "stepInequalities (WhereFilter flt) = filterInequalities flt"
| "stepInequalities st = []"

fun lookupPath :: "string list \<Rightarrow> jsval \<Rightarrow> jsval option" where
  "lookupPath [] v = Some v"
| "lookupPath (seg # segs) (Obj ps) =
     (case map_of ps seg of None \<Rightarrow> None | Some v \<Rightarrow> lookupPath segs v)"
| "lookupPath (seg # segs) v = None"

fun snapshotHas :: "DocumentSnapshot \<Rightarrow> fieldRef \<Rightarrow> bool" where
  "snapshotHas snap DocumentId = True"
| "snapshotHas snap (FieldName f) =
     (f = ''__name__'' \<or>
      (case snapData snap of
        None \<Rightarrow> False
      | Some d \<Rightarrow> (case lookupPath (splitOn (CHR ''.'') f) (Obj d) of
                    None \<Rightarrow> False | Some v \<Rightarrow> v \<noteq> Undefined)))"
| "snapshotHas snap (FieldPath segs) =
     (segs = [''__name__''] \<or>
      (case snapData snap of
        None \<Rightarrow> False
      | Some d \<Rightarrow> (case lookupPath segs (Obj d) of
                    None \<Rightarrow> False | Some v \<Rightarrow> v \<noteq> Undefined)))"

fun nodeCursorOk :: "Query \<Rightarrow> cursor \<Rightarrow> bool" where
  "nodeCursorOk ref (CursorSnapshot snap) =
     list_all (snapshotHas snap)
       (concat (map stepOrders (steps ref)) @ concat (map stepInequalities (steps ref)))"
| "nodeCursorOk ref (CursorValue v) =
     (case concat (map stepOrders (steps ref)) of
        [] \<Rightarrow> False
      | f # fs \<Rightarrow> (if namesDocumentId f then plainDocumentId v else queryValueOk v))"

fun isCursorStep :: "queryStep \<Rightarrow> bool" where
  "isCursorStep (StartAfter cur) = True"
| "isCursorStep st = False"

fun nodeAcceptsStep :: "Query \<Rightarrow> queryStep \<Rightarrow> bool" where
  "nodeAcceptsStep ref (Where f op v) =
     (nodeComparisonOk f op v \<and> \<not> list_ex isCursorStep (steps ref))"
| "nodeAcceptsStep ref (WhereFilter flt) =
     (nodeFilterOk flt \<and> \<not> list_ex isCursorStep (steps ref))"
| "nodeAcceptsStep ref (OrderBy f d) = (nodeFieldOk f \<and> \<not> list_ex isCursorStep (steps ref))"
| "nodeAcceptsStep ref (StartAfter cur) = nodeCursorOk ref cur"
| "nodeAcceptsStep ref (Limit n) = True"

section \<open>Sample data\<close>

definition personType :: Type where
  "personType = \<lparr>name = ''Person'',
     newInstance = \<lparr>own = [(''name'', Undefined), (''age'', Undefined)], inherited = []\<rparr>\<rparr>"

definition circleType :: Type where
  "circleType = \<lparr>name = ''Circle'',
     newInstance = \<lparr>own = [(''type'', Str ''circle''), (''radius'', Undefined)], inherited = []\<rparr>\<rparr>"

definition squareType :: Type where
  "squareType = \<lparr>name = ''Square'',
     newInstance = \<lparr>own = [(''type'', Str ''square''), (''side'', Undefined)], inherited = []\<rparr>\<rparr>"

definition peopleCollection :: Collection where
  "peopleCollection = \<lparr>types = [personType], collectionName = ''people'', isSingleType = True\<rparr>"

definition shapesCollection :: Collection where
  "shapesCollection =
     \<lparr>types = [circleType, squareType], collectionName = ''shapes'', isSingleType = False\<rparr>"

definition sampleDb :: Firestore where
  "sampleDb = \<lparr>stored = [(''people'', ''p1'') \<mapsto> [(''name'', Str ''Ann'')],
                         (''people'', ''p2'') \<mapsto> [(''name'', Str ''Cy''), (''age'', Num 40)]],
               unflushed = [], autoId = (\<lambda>n. ''auto''), issued = 0, calls = [],
               acceptsPath = nodeAcceptsPath, acceptsData = nodeAcceptsData,
               acceptsStep = nodeAcceptsStep\<rparr>"

definition personUpdate :: jsobject where
  "personUpdate = \<lparr>own = [(''name'', Str ''x''), (''age'', Num 5), (''bogus'', Str ''y''),
                          (''type'', Str ''foo'')], inherited = []\<rparr>"

definition squareUpdate :: jsobject where
  "squareUpdate = \<lparr>own = [(''type'', Str ''square''), (''side'', Num 3), (''radius'', Num 1)],
                   inherited = []\<rparr>"

definition upperCaseUpdate :: jsobject where
  "upperCaseUpdate = \<lparr>own = [(''type'', Str ''SQUARE''), (''side'', Num 3)], inherited = []\<rparr>"

definition triangleUpdate :: jsobject where
  "triangleUpdate = \<lparr>own = [(''type'', Str ''triangle''), (''side'', Num 3)], inherited = []\<rparr>"

definition bobWithId :: jsobject where
  "bobWithId = \<lparr>own = [(''id'', Str ''p1''), (''name'', Str ''Bob'')], inherited = []\<rparr>"

definition adultClauses :: "WhereClause list" where
  "adultClauses = [\<lparr>field = FieldName ''age'', clauseValue = Num 18, operation = ''>=''\<rparr>,
                   \<lparr>field = FieldName ''age'', clauseValue = Num 65, operation = ''<''\<rparr>]"

definition afterP1 :: PagingOptions where
  "afterP1 = \<lparr>startAfter = Str ''p1'', limit = 5\<rparr>"

definition afterP2 :: PagingOptions where
  "afterP2 = \<lparr>startAfter = Str ''p2'', limit = 5\<rparr>"

section \<open>Auxiliary lemmas\<close>

lemma lower_Circle: "toLocaleLowerCase ''Circle'' = ''circle''"
  by code_simp

lemma lower_Square: "toLocaleLowerCase ''Square'' = ''square''"
  by code_simp

lemma lower_SQUARE: "toLocaleLowerCase ''SQUARE'' = ''square''"
  by code_simp

lemma fold_copyProp_names:
  "set (map fst (own (fold (copyProp po sps) ps acc))) =
     set (map fst (own acc)) \<union> {p \<in> set ps. p \<noteq> ''type'' \<and> p \<in> set sps \<and> js_in p po}"
  by (induction ps arbitrary: acc) (auto simp: copyProp_def setProp_def dom_update)

lemma fold_copyProp_value:
  "map_of (own (fold (copyProp po sps) ps acc)) p =
     (if p \<in> set ps \<and> p \<noteq> ''type'' \<and> p \<in> set sps \<and> js_in p po
      then Some (getProp po p) else map_of (own acc) p)"
  by (induction ps arbitrary: acc) (auto simp: copyProp_def setProp_def update_conv')

lemma fold_copyProp_inherited:
  "inherited (fold (copyProp po sps) ps acc) = inherited acc"
  by (induction ps arbitrary: acc) (auto simp: copyProp_def setProp_def)

lemma fold_copyProp_distinct:
  "distinct (map fst (own acc)) \<Longrightarrow> distinct (map fst (own (fold (copyProp po sps) ps acc)))"
  by (induction ps arbitrary: acc) (auto simp: copyProp_def setProp_def distinct_update)

lemma find_None_iff_ball: "(find P xs = None) = (\<forall>x \<in> set xs. \<not> P x)"
  by (induction xs) auto

lemma restWithoutId_no_id: "map_of (restWithoutId ob) ''id'' = None"
  by (auto simp: restWithoutId_def map_of_eq_None_iff)


lemma whereEach_accepted:
  assumes "\<forall>k < length cls.
      acceptsStep db
        \<lparr>queryCollection = cn,
         steps = pre @ map (\<lambda>wc. Where (field wc) (operation wc) (clauseValue wc)) (take k cls)\<rparr>
        (Where (field (cls ! k)) (operation (cls ! k)) (clauseValue (cls ! k)))"
  shows "whereEach db cls \<lparr>queryCollection = cn, steps = pre\<rparr> =
     Inr \<lparr>queryCollection = cn,
          steps = pre @ map (\<lambda>wc. Where (field wc) (operation wc) (clauseValue wc)) cls\<rparr>"
  using assms
proof (induction cls arbitrary: pre)
  case Nil
  show ?case by simp
next
  case (Cons wc cls)
  let ?st = "Where (field wc) (operation wc) (clauseValue wc)"
  from Cons.prems [rule_format, of 0]
  have first: "acceptsStep db \<lparr>queryCollection = cn, steps = pre\<rparr> ?st"
    by simp
  have rest: "\<forall>k < length cls.
      acceptsStep db
        \<lparr>queryCollection = cn,
         steps = (pre @ [?st]) @
           map (\<lambda>wc. Where (field wc) (operation wc) (clauseValue wc)) (take k cls)\<rparr>
        (Where (field (cls ! k)) (operation (cls ! k)) (clauseValue (cls ! k)))"
  proof (intro allI impI)
    fix k assume "k < length cls"
    with Cons.prems [rule_format, of "Suc k"]
    show "acceptsStep db
        \<lparr>queryCollection = cn,
         steps = (pre @ [?st]) @
           map (\<lambda>wc. Where (field wc) (operation wc) (clauseValue wc)) (take k cls)\<rparr>
        (Where (field (cls ! k)) (operation (cls ! k)) (clauseValue (cls ! k)))"
      by simp
  qed
  from Cons.IH [OF rest] first show ?case
    by (simp add: applyStep_def addStep_def)
qed

lemma docs_calls_update: "docs (db\<lparr>calls := cs\<rparr>) = docs db"
  by (rule ext) (simp add: docs_def)

lemma recordAccepted_data: "recordAccepted db cname ob \<Longrightarrow> acceptsData db (own ob)"
  by (simp add: recordAccepted_def)

lemma recordAccepted_truthy:
  "recordAccepted db cname ob \<Longrightarrow> truthy (getProp ob ''id'') \<Longrightarrow>
     \<exists>s. getProp ob ''id'' = Str s \<and> acceptsPath db (cname, s)"
  by (cases "getProp ob ''id''") (auto simp: recordAccepted_def)

lemma recordAccepted_cong:
  "acceptsPath db2 = acceptsPath db \<Longrightarrow> acceptsData db2 = acceptsData db \<Longrightarrow>
     recordAccepted db2 cname ob = recordAccepted db cname ob"
  by (simp add: recordAccepted_def split: jsval.splits)

text \<open>
  The loop of \<^verbatim>\<open>addMany\<close> on records the client accepts: it never fails, and it gives the
  writer one \<^verbatim>\<open>set\<close> per record, in order, with the record's own properties as data; a
  record with a truthy \<^verbatim>\<open>id\<close> is written under that id.
\<close>

lemma addManyLoop_trace:
  "\<forall>ob \<in> set obs. recordAccepted db cname ob \<Longrightarrow>
   \<exists>ids db'. addManyLoop cname obs writer db =
        (Inr (), writer @ map2 (\<lambda>i ob. (cname, i, own ob)) ids obs, db') \<and>
      length ids = length obs \<and>
      calls db' = calls db @ map2 (\<lambda>i ob. BulkSet cname i (own ob)) ids obs \<and>
      (\<forall>k < length obs. truthy (getProp (obs ! k) ''id'') \<longrightarrow>
          getProp (obs ! k) ''id'' = Str (ids ! k))"
proof (induction obs arbitrary: writer db)
  case Nil
  then show ?case by simp
next
  case (Cons ob obs)
  from Cons.prems have ok: "recordAccepted db cname ob"
    and rest: "\<forall>ob \<in> set obs. recordAccepted db cname ob"
    by simp_all
  note data = recordAccepted_data [OF ok]
  obtain i db2 where step:
    "addManyLoop cname (ob # obs) writer db =
       addManyLoop cname obs (writer @ [(cname, i, own ob)]) db2"
    "calls db2 = calls db @ [BulkSet cname i (own ob)]"
    "acceptsPath db2 = acceptsPath db" "acceptsData db2 = acceptsData db"
    "truthy (getProp ob ''id'') \<longrightarrow> getProp ob ''id'' = Str i"
  proof (cases "truthy (getProp ob ''id'')")
    case True
    with recordAccepted_truthy [OF ok] obtain s
      where s: "getProp ob ''id'' = Str s" "acceptsPath db (cname, s)"
      by auto
    have "addManyLoop cname (ob # obs) writer db =
        addManyLoop cname obs (writer @ [(cname, s, own ob)])
          (db\<lparr>calls := calls db @ [BulkSet cname s (own ob)]\<rparr>)"
      using True s data by (simp add: doc_def bulkSet_def)
    then show ?thesis
      by (rule that [of s "db\<lparr>calls := calls db @ [BulkSet cname s (own ob)]\<rparr>"])
         (simp_all add: s)
  next
    case False
    let ?i = "autoId db (issued db)"
    let ?db2 = "db\<lparr>issued := Suc (issued db), calls := calls db @ [BulkSet cname ?i (own ob)]\<rparr>"
    have "addManyLoop cname (ob # obs) writer db =
        addManyLoop cname obs (writer @ [(cname, ?i, own ob)]) ?db2"
      using False data by (simp add: docAuto_def bulkSet_def)
    then show ?thesis
      by (rule that [of ?i ?db2]) (simp_all add: False)
  qed
  have rest2: "\<forall>ob \<in> set obs. recordAccepted db2 cname ob"
    using rest by (simp add: recordAccepted_cong [OF step(3) step(4)])
  from Cons.IH [OF rest2, of "writer @ [(cname, i, own ob)]"]
  obtain ids db' where ih:
    "addManyLoop cname obs (writer @ [(cname, i, own ob)]) db2 =
       (Inr (), (writer @ [(cname, i, own ob)]) @ map2 (\<lambda>i ob. (cname, i, own ob)) ids obs, db')"
    "length ids = length obs"
    "calls db' = calls db2 @ map2 (\<lambda>i ob. BulkSet cname i (own ob)) ids obs"
    "\<forall>k < length obs. truthy (getProp (obs ! k) ''id'') \<longrightarrow>
          getProp (obs ! k) ''id'' = Str (ids ! k)"
    by (elim exE conjE)
  have a: "addManyLoop cname (ob # obs) writer db =
      (Inr (), writer @ map2 (\<lambda>i ob. (cname, i, own ob)) (i # ids) (ob # obs), db')"
    using step(1) ih(1) by simp
  have b: "length (i # ids) = length (ob # obs)"
    using ih(2) by simp
  have c: "calls db' = calls db @ map2 (\<lambda>i ob. BulkSet cname i (own ob)) (i # ids) (ob # obs)"
    using ih(3) step(2) by simp
  have d: "\<forall>k < length (ob # obs). truthy (getProp ((ob # obs) ! k) ''id'') \<longrightarrow>
          getProp ((ob # obs) ! k) ''id'' = Str ((i # ids) ! k)"
  proof (intro allI impI)
    fix k assume "k < length (ob # obs)" "truthy (getProp ((ob # obs) ! k) ''id'')"
    then show "getProp ((ob # obs) ! k) ''id'' = Str ((i # ids) ! k)"
      using step(5) ih(4) by (cases k) auto
  qed
  show ?case
    by (rule exI [of _ "i # ids"], rule exI [of _ db']) (intro conjI a b c d)
qed

lemma sample_accepts_bob:
  "recordAccepted sampleDb (collectionName peopleCollection) bobWithId"
  by code_simp

text \<open>
  The example of the spec's testable property 5: for the shape \<open>{name, age}\<close> the
  payload \<open>{name, age, bogus, type}\<close> is projected to \<open>{name, age}\<close>.
\<close>

lemma projection_example:
  "assembleUpdateObject peopleCollection personUpdate =
     Inr \<lparr>own = [(''name'', Str ''x''), (''age'', Num 5)], inherited = []\<rparr>"
  by (simp add: assembleUpdateObject_def updateType_def peopleCollection_def personType_def
      personUpdate_def getOwnPropertyNames_def copyProp_def js_in_def setProp_def getProp_def
      emptyObject_def)

section \<open>Construction\<close>

text \<open>
  Claim C5. Constructing the accessor fails exactly when the shape list is empty, or when
  more than one shape is declared and the blank instance of some shape has no \<^verbatim>\<open>type\<close>
  property. With exactly one shape it succeeds, whatever the shape declares.
\<close>

theorem construction_fails_iff:
  "(isl (newCollection ts cname) \<longleftrightarrow>
      ts = [] \<or> (1 < length ts \<and> (\<exists>t \<in> set ts. \<not> js_in ''type'' (newInstance t))))
   \<and> (length ts = 1 \<longrightarrow>
        newCollection ts cname =
          Inr \<lparr>types = ts, collectionName = cname, isSingleType = True\<rparr>)"
  by (cases ts; cases "tl ts")
     (auto simp: newCollection_def validate_def Let_def split: sum.splits if_splits)

theorem construction_fails_iff_witness:
  "isl (newCollection [] ''shapes'')
   \<and> isl (newCollection [circleType, personType] ''shapes'')
   \<and> \<not> isl (newCollection [circleType, squareType] ''shapes'')
   \<and> newCollection [personType] ''people'' = Inr peopleCollection"
  using construction_fails_iff [of "[]" "''shapes''"]
    construction_fails_iff [of "[circleType, personType]" "''shapes''"]
    construction_fails_iff [of "[circleType, squareType]" "''shapes''"]
    construction_fails_iff [of "[personType]" "''people''"]
  by (simp add: js_in_def personType_def circleType_def squareType_def peopleCollection_def)

section \<open>Query assembly: the branches\<close>

text \<open>
  Claim C3. When both \<^verbatim>\<open>whereOptions\<close> and \<^verbatim>\<open>orderOptions\<close> are set, query assembly
  fails with the configuration error of line 201, whatever the other fields hold, and the
  store is not touched.
\<close>

theorem where_and_order_rejected:
  "whereOptions opts = Some wo \<Longrightarrow> orderOptions opts = Some oo \<Longrightarrow>
   assembleQuery cname (Some opts) db = (Inl WhereAndOrderInSameQuery, db)"
  by (simp add: assembleQuery_def)

theorem where_and_order_rejected_witness:
  "assembleQuery ''people''
     (Some \<lparr>whereOptions = Some \<lparr>whereClauses = adultClauses, operator = None,
                                  wherePaging = Some afterP1\<rparr>,
            orderOptions = Some \<lparr>orderField = ''age'', orderDirection = Desc,
                                  orderPaging = Some afterP1\<rparr>,
            pagingOptions = Some afterP1\<rparr>) sampleDb
   = (Inl WhereAndOrderInSameQuery, sampleDb)"
  using where_and_order_rejected
    [of "\<lparr>whereOptions = Some \<lparr>whereClauses = adultClauses, operator = None,
                                  wherePaging = Some afterP1\<rparr>,
            orderOptions = Some \<lparr>orderField = ''age'', orderDirection = Desc,
                                  orderPaging = Some afterP1\<rparr>,
            pagingOptions = Some afterP1\<rparr>"
        "\<lparr>whereClauses = adultClauses, operator = None, wherePaging = Some afterP1\<rparr>"
        "\<lparr>orderField = ''age'', orderDirection = Desc, orderPaging = Some afterP1\<rparr>"
        "''people''" sampleDb]
  by simp

text \<open>
  Claim C9. For the empty options object the assembled query orders by document id,
  ascending, and limits to 10; nothing is read from the store.
\<close>

theorem assembleQuery_default:
  "assembleQuery cname
     (Some \<lparr>whereOptions = None, orderOptions = None, pagingOptions = None\<rparr>) db
   = (Inr \<lparr>queryCollection = cname, steps = [OrderBy DocumentId (Some Asc), Limit 10]\<rparr>, db)"
  by (simp add: assembleQuery_def addStep_def)

text \<open>
  Claim C1, as stated: with bare \<^verbatim>\<open>pagingOptions\<close> and a non-empty \<^verbatim>\<open>startAfter\<close>, the
  value is resolved to a document snapshot by an extra read. It is not: lines 257-259 pass
  the value to \<^verbatim>\<open>startAfter\<close> as it is. On the sample store no call is made and the cursor
  of the query is the bare string.
\<close>

theorem bare_paging_cursor_counterexample:
  "calls (snd (assembleQuery ''people''
       (Some \<lparr>whereOptions = None, orderOptions = None, pagingOptions = Some afterP1\<rparr>)
       sampleDb)) = []
   \<and> fst (assembleQuery ''people''
       (Some \<lparr>whereOptions = None, orderOptions = None, pagingOptions = Some afterP1\<rparr>)
       sampleDb)
     = Inr \<lparr>queryCollection = ''people'',
            steps = [OrderBy DocumentId None, StartAfter (CursorValue (Str ''p1'')), Limit 5]\<rparr>"
  by (simp add: assembleQuery_def pagingBranch_def applyStep_def addStep_def afterP1_def
      sampleDb_def)


text \<open>
  Claim C1, amended. With bare \<^verbatim>\<open>pagingOptions\<close> and a truthy \<^verbatim>\<open>startAfter\<close> that the
  store client accepts as a cursor value of a query ordered by document id, query assembly
  orders by document id, applies the \<^verbatim>\<open>startAfter\<close> value itself as the cursor bound, then
  applies the limit; it resolves no snapshot and reads nothing from the store.
\<close>

theorem bare_paging_cursor_is_raw_value:
  "whereOptions opts = None \<Longrightarrow> orderOptions opts = None \<Longrightarrow>
   pagingOptions opts = Some po \<Longrightarrow> truthy (startAfter po) \<Longrightarrow>
   acceptsStep db \<lparr>queryCollection = cname, steps = [OrderBy DocumentId None]\<rparr>
     (StartAfter (CursorValue (startAfter po))) \<Longrightarrow>
   assembleQuery cname (Some opts) db =
     (Inr \<lparr>queryCollection = cname,
           steps = [OrderBy DocumentId None, StartAfter (CursorValue (startAfter po)),
                    Limit (limit po)]\<rparr>, db)"
  by (simp add: assembleQuery_def pagingBranch_def applyStep_def addStep_def)

theorem bare_paging_cursor_is_raw_value_witness:
  "truthy (startAfter \<lparr>startAfter = Str ''p9'', limit = 25\<rparr>)
   \<and> acceptsStep sampleDb \<lparr>queryCollection = ''shapes'', steps = [OrderBy DocumentId None]\<rparr>
       (StartAfter (CursorValue (Str ''p9'')))
   \<and> assembleQuery ''shapes''
       (Some \<lparr>whereOptions = None, orderOptions = None,
              pagingOptions = Some \<lparr>startAfter = Str ''p9'', limit = 25\<rparr>\<rparr>) sampleDb
     = (Inr \<lparr>queryCollection = ''shapes'',
             steps = [OrderBy DocumentId None, StartAfter (CursorValue (Str ''p9'')),
                      Limit 25]\<rparr>, sampleDb)"
proof -
  have a: "acceptsStep sampleDb \<lparr>queryCollection = ''shapes'', steps = [OrderBy DocumentId None]\<rparr>
       (StartAfter (CursorValue (Str ''p9'')))"
    by code_simp
  from a bare_paging_cursor_is_raw_value
    [of "\<lparr>whereOptions = None, orderOptions = None,
           pagingOptions = Some \<lparr>startAfter = Str ''p9'', limit = 25\<rparr>\<rparr>"
        "\<lparr>startAfter = Str ''p9'', limit = 25\<rparr>" sampleDb "''shapes''"]
  show ?thesis by simp
qed

text \<open>
  Claim C6. In the \<^verbatim>\<open>whereOptions\<close> branch (no \<^verbatim>\<open>orderOptions\<close>, paging present, the
  cursor id falsy or a document path the client accepts), operator \<^verbatim>\<open>"or"\<close> puts all
  clauses into one compound OR filter, applied in a single \<^verbatim>\<open>where\<close>; an unset operator or
  \<^verbatim>\<open>"and"\<close> applies each clause as a \<^verbatim>\<open>where\<close> of its own, in list order. The snapshot
  cursor, if any, and the limit follow. This is the query whenever the client accepts the
  calls that carry the caller's values: the filter or each clause, and the cursor.
\<close>

theorem where_clauses_combination:
  assumes "whereOptions opts = Some wo" and "orderOptions opts = None"
    and "wherePaging wo = Some po"
    and "\<not> truthy (startAfter po) \<or> (startAfter po = Str i \<and> acceptsPath db (cname, i))"
    and "cur = (if truthy (startAfter po)
                then [StartAfter (CursorSnapshot
                        \<lparr>snapCollection = cname, snapId = i, snapData = docs db (cname, i)\<rparr>)]
                else [])"
    and "db' = (if truthy (startAfter po) then db\<lparr>calls := calls db @ [DocGet cname i]\<rparr> else db)"
    and "orFilter = WhereFilter (FilterOr
           (map (\<lambda>wc. FilterWhere (field wc) (operation wc) (clauseValue wc)) (whereClauses wo)))"
    and "wheres = map (\<lambda>wc. Where (field wc) (operation wc) (clauseValue wc)) (whereClauses wo)"
  shows
    "(operator wo = Some OpOr \<and>
      acceptsStep db \<lparr>queryCollection = cname, steps = []\<rparr> orFilter \<and>
      list_all (acceptsStep db \<lparr>queryCollection = cname, steps = [orFilter]\<rparr>) cur
      \<longrightarrow> assembleQuery cname (Some opts) db =
            (Inr \<lparr>queryCollection = cname, steps = [orFilter] @ cur @ [Limit (limit po)]\<rparr>, db'))
     \<and> ((operator wo = None \<or> operator wo = Some OpAnd) \<and>
        (\<forall>k < length wheres.
            acceptsStep db \<lparr>queryCollection = cname, steps = take k wheres\<rparr> (wheres ! k)) \<and>
        list_all (acceptsStep db \<lparr>queryCollection = cname, steps = wheres\<rparr>) cur
      \<longrightarrow> assembleQuery cname (Some opts) db =
            (Inr \<lparr>queryCollection = cname, steps = wheres @ cur @ [Limit (limit po)]\<rparr>, db'))"
proof -
  let ?snap = "\<lparr>snapCollection = cname, snapId = i, snapData = docs db (cname, i)\<rparr>"
  let ?Q0 = "\<lparr>queryCollection = cname, steps = []\<rparr>"
  have read: "truthy (startAfter po) \<Longrightarrow>
      getDocumentSnapshot cname (startAfter po) db = (Inr ?snap, db')"
    using assms(4) assms(6) by (auto simp: getDocumentSnapshot_def doc_def docGet_def)
  have same: "\<not> truthy (startAfter po) \<Longrightarrow> db' = db"
    using assms(6) by simp
  have acc: "acceptsStep db' = acceptsStep db"
    using assms(6) by simp
  have branch: "assembleQuery cname (Some opts) db = whereBranch cname ?Q0 wo db"
    using assms(1) assms(2) by (simp add: assembleQuery_def)
  show ?thesis
  proof (intro conjI impI)
    assume h: "operator wo = Some OpOr \<and>
      acceptsStep db ?Q0 orFilter \<and>
      list_all (acceptsStep db \<lparr>queryCollection = cname, steps = [orFilter]\<rparr>) cur"
    then show "assembleQuery cname (Some opts) db =
            (Inr \<lparr>queryCollection = cname, steps = [orFilter] @ cur @ [Limit (limit po)]\<rparr>, db')"
      unfolding branch whereBranch_def
      using assms(3) assms(5) assms(7)
      by (cases "truthy (startAfter po)") (simp_all add: read same acc applyStep_def addStep_def)
  next
    assume h: "(operator wo = None \<or> operator wo = Some OpAnd) \<and>
        (\<forall>k < length wheres.
            acceptsStep db \<lparr>queryCollection = cname, steps = take k wheres\<rparr> (wheres ! k)) \<and>
        list_all (acceptsStep db \<lparr>queryCollection = cname, steps = wheres\<rparr>) cur"
    then have op: "operator wo \<noteq> Some OpOr"
      by auto
    have each: "whereEach dbx (whereClauses wo) ?Q0 =
        Inr \<lparr>queryCollection = cname, steps = wheres\<rparr>"
      if x: "acceptsStep dbx = acceptsStep db" for dbx
    proof -
      from h have "\<forall>k < length (whereClauses wo).
          acceptsStep dbx
            \<lparr>queryCollection = cname,
             steps = [] @ map (\<lambda>wc. Where (field wc) (operation wc) (clauseValue wc))
                            (take k (whereClauses wo))\<rparr>
            (Where (field (whereClauses wo ! k)) (operation (whereClauses wo ! k))
               (clauseValue (whereClauses wo ! k)))"
        by (simp add: assms(8) x take_map)
      from whereEach_accepted [OF this] show ?thesis
        by (simp add: assms(8))
    qed
    from h show "assembleQuery cname (Some opts) db =
            (Inr \<lparr>queryCollection = cname, steps = wheres @ cur @ [Limit (limit po)]\<rparr>, db')"
      unfolding branch whereBranch_def
      using assms(3) assms(5) op
      by (cases "truthy (startAfter po)") (simp_all add: read same each acc applyStep_def addStep_def)
  qed
qed

theorem where_clauses_combination_witness:
  "assembleQuery ''people''
     (Some \<lparr>whereOptions = Some \<lparr>whereClauses = adultClauses, operator = Some OpOr,
                                  wherePaging = Some afterP2\<rparr>,
            orderOptions = None, pagingOptions = None\<rparr>) sampleDb
   = (Inr \<lparr>queryCollection = ''people'',
           steps = [WhereFilter (FilterOr [FilterWhere (FieldName ''age'') ''>='' (Num 18),
                                           FilterWhere (FieldName ''age'') ''<'' (Num 65)]),
                    StartAfter (CursorSnapshot
                      \<lparr>snapCollection = ''people'', snapId = ''p2'',
                       snapData = Some [(''name'', Str ''Cy''), (''age'', Num 40)]\<rparr>),
                    Limit 5]\<rparr>,
      sampleDb\<lparr>calls := [DocGet ''people'' ''p2'']\<rparr>)
   \<and> assembleQuery ''people''
     (Some \<lparr>whereOptions = Some \<lparr>whereClauses = adultClauses, operator = None,
                                  wherePaging = Some afterP2\<rparr>,
            orderOptions = None, pagingOptions = None\<rparr>) sampleDb
   = (Inr \<lparr>queryCollection = ''people'',
           steps = [Where (FieldName ''age'') ''>='' (Num 18),
                    Where (FieldName ''age'') ''<'' (Num 65),
                    StartAfter (CursorSnapshot
                      \<lparr>snapCollection = ''people'', snapId = ''p2'',
                       snapData = Some [(''name'', Str ''Cy''), (''age'', Num 40)]\<rparr>),
                    Limit 5]\<rparr>,
      sampleDb\<lparr>calls := [DocGet ''people'' ''p2'']\<rparr>)"
proof -
  let ?snap = "\<lparr>snapCollection = ''people'', snapId = ''p2'',
                snapData = Some [(''name'', Str ''Cy''), (''age'', Num 40)]\<rparr>"
  let ?cur = "[StartAfter (CursorSnapshot ?snap)]"
  let ?or = "WhereFilter (FilterOr [FilterWhere (FieldName ''age'') ''>='' (Num 18),
                                     FilterWhere (FieldName ''age'') ''<'' (Num 65)])"
  let ?ws = "[Where (FieldName ''age'') ''>='' (Num 18), Where (FieldName ''age'') ''<'' (Num 65)]"
  let ?db' = "sampleDb\<lparr>calls := [DocGet ''people'' ''p2'']\<rparr>"
  have p: "acceptsPath sampleDb (''people'', ''p2'')"
    by code_simp
  have d: "docs sampleDb (''people'', ''p2'') = Some [(''name'', Str ''Cy''), (''age'', Num 40)]"
    by code_simp
  have c0: "calls sampleDb = []"
    by (simp add: sampleDb_def)
  have o1: "acceptsStep sampleDb \<lparr>queryCollection = ''people'', steps = []\<rparr> ?or"
    by code_simp
  have o2: "acceptsStep sampleDb \<lparr>queryCollection = ''people'', steps = [?or]\<rparr>
      (StartAfter (CursorSnapshot ?snap))"
    by code_simp
  have w0: "acceptsStep sampleDb \<lparr>queryCollection = ''people'', steps = []\<rparr>
      (Where (FieldName ''age'') ''>='' (Num 18))"
    by code_simp
  have w1: "acceptsStep sampleDb
      \<lparr>queryCollection = ''people'', steps = [Where (FieldName ''age'') ''>='' (Num 18)]\<rparr>
      (Where (FieldName ''age'') ''<'' (Num 65))"
    by code_simp
  have w2: "acceptsStep sampleDb \<lparr>queryCollection = ''people'', steps = ?ws\<rparr>
      (StartAfter (CursorSnapshot ?snap))"
    by code_simp
  have wk: "\<forall>k < length ?ws.
      acceptsStep sampleDb \<lparr>queryCollection = ''people'', steps = take k ?ws\<rparr> (?ws ! k)"
    using w0 w1 by (simp add: less_Suc_eq)
  have r1: "assembleQuery ''people''
     (Some \<lparr>whereOptions = Some \<lparr>whereClauses = adultClauses, operator = Some OpOr,
                                  wherePaging = Some afterP2\<rparr>,
            orderOptions = None, pagingOptions = None\<rparr>) sampleDb
     = (Inr \<lparr>queryCollection = ''people'', steps = [?or] @ ?cur @ [Limit (limit afterP2)]\<rparr>, ?db')"
    by (rule where_clauses_combination
          [where wo = "\<lparr>whereClauses = adultClauses, operator = Some OpOr,
                        wherePaging = Some afterP2\<rparr>"
             and po = afterP2 and i = "''p2''" and wheres = ?ws, THEN conjunct1, THEN mp])
       (simp_all add: afterP2_def adultClauses_def p d c0 o1 o2)
  have r2: "assembleQuery ''people''
     (Some \<lparr>whereOptions = Some \<lparr>whereClauses = adultClauses, operator = None,
                                  wherePaging = Some afterP2\<rparr>,
            orderOptions = None, pagingOptions = None\<rparr>) sampleDb
     = (Inr \<lparr>queryCollection = ''people'', steps = ?ws @ ?cur @ [Limit (limit afterP2)]\<rparr>, ?db')"
    by (rule where_clauses_combination
          [where wo = "\<lparr>whereClauses = adultClauses, operator = None,
                        wherePaging = Some afterP2\<rparr>"
             and po = afterP2 and i = "''p2''" and orFilter = ?or, THEN conjunct2, THEN mp])
       (simp_all add: afterP2_def adultClauses_def p d c0 wk w2)
  from r1 r2 show ?thesis
    by (simp add: afterP2_def)
qed
section \<open>The update projector: shape resolution and projection\<close>

text \<open>
  Claim C2, as stated: in multi-shape mode the payload's \<^verbatim>\<open>type\<close> is matched against the
  shape names without regard to case. It is not: only the shape's name is lower-cased
  (line 281), the payload's \<^verbatim>\<open>type\<close> is compared as it is. The payload type
  \<^verbatim>\<open>"SQUARE"\<close> equals the shape name \<^verbatim>\<open>Square\<close> up to case, and projection fails.
\<close>

theorem case_insensitive_match_counterexample:
  "newCollection [circleType, squareType] ''shapes'' = Inr shapesCollection
   \<and> getProp upperCaseUpdate ''type'' = Str ''SQUARE''
   \<and> toLocaleLowerCase ''SQUARE'' = toLocaleLowerCase (name squareType)
   \<and> assembleUpdateObject shapesCollection upperCaseUpdate = Inl CouldNotDeriveUpdateType"
  by (simp add: newCollection_def validate_def shapesCollection_def circleType_def
      squareType_def upperCaseUpdate_def js_in_def getProp_def assembleUpdateObject_def
      updateType_def typeMatches_def lower_Circle lower_Square lower_SQUARE)

text \<open>
  Claim C2, amended. In multi-shape mode the update projector resolves the target shape
  as the first declared shape whose lower-cased name is strictly equal to the payload's
  \<^verbatim>\<open>type\<close> value, taken as it is; projection fails with the "could not derive" error
  exactly when no declared shape matches in that way.
\<close>

theorem multi_type_shape_resolution:
  assumes "\<not> isSingleType c"
  shows "updateType c po =
       find (\<lambda>t. js_in ''type'' po \<and> Str (toLocaleLowerCase (name t)) = getProp po ''type'')
         (types c)
     \<and> ((assembleUpdateObject c po = Inl CouldNotDeriveUpdateType) \<longleftrightarrow>
          (\<forall>t \<in> set (types c).
             \<not> (js_in ''type'' po \<and> Str (toLocaleLowerCase (name t)) = getProp po ''type'')))"
proof -
  let ?P = "\<lambda>t. js_in ''type'' po \<and> Str (toLocaleLowerCase (name t)) = getProp po ''type''"
  have u: "updateType c po = find ?P (types c)"
    using assms by (simp add: updateType_def typeMatches_def [abs_def])
  have "(assembleUpdateObject c po = Inl CouldNotDeriveUpdateType) = (find ?P (types c) = None)"
    by (simp add: assembleUpdateObject_def u split: option.splits)
  with u show ?thesis by (simp add: find_None_iff_ball)
qed

theorem multi_type_shape_resolution_witness:
  "\<not> isSingleType shapesCollection
   \<and> updateType shapesCollection squareUpdate = Some squareType
   \<and> assembleUpdateObject shapesCollection squareUpdate \<noteq> Inl CouldNotDeriveUpdateType
   \<and> assembleUpdateObject shapesCollection triangleUpdate = Inl CouldNotDeriveUpdateType"
  using multi_type_shape_resolution [of shapesCollection squareUpdate]
    multi_type_shape_resolution [of shapesCollection triangleUpdate]
  by (simp add: shapesCollection_def circleType_def squareType_def squareUpdate_def
      triangleUpdate_def js_in_def getProp_def lower_Circle lower_Square)

text \<open>
  Claim C4. Once the shape is resolved, projection succeeds, and the projected object has
  a field exactly when the field is not \<^verbatim>\<open>type\<close>, is an own property name of the shape's
  blank instance, and is an own property of the payload; each kept field has the payload's
  value. Every other payload field is dropped without an error.
\<close>

theorem projection_keeps_declared_own_fields:
  assumes "updateType c po = Some t"
  shows "\<exists>so. assembleUpdateObject c po = Inr so \<and>
     (\<forall>p. p \<in> set (getOwnPropertyNames so) \<longleftrightarrow>
        p \<noteq> ''type'' \<and> p \<in> set (getOwnPropertyNames (newInstance t)) \<and>
        p \<in> set (getOwnPropertyNames po)) \<and>
     (\<forall>p \<in> set (getOwnPropertyNames so). getProp so p = getProp po p) \<and>
     distinct (getOwnPropertyNames so) \<and> inherited so = []"
proof -
  let ?so = "fold (copyProp po (getOwnPropertyNames (newInstance t)))
               (getOwnPropertyNames po) emptyObject"
  have r: "assembleUpdateObject c po = Inr ?so"
    using assms by (simp add: assembleUpdateObject_def)
  have own_in: "\<And>p. p \<in> set (getOwnPropertyNames po) \<Longrightarrow> js_in p po"
    by (simp add: getOwnPropertyNames_def js_in_def)
  have names: "\<forall>p. p \<in> set (getOwnPropertyNames ?so) \<longleftrightarrow>
        p \<noteq> ''type'' \<and> p \<in> set (getOwnPropertyNames (newInstance t)) \<and>
        p \<in> set (getOwnPropertyNames po)"
    unfolding getOwnPropertyNames_def [of ?so] fold_copyProp_names
    using own_in by (auto simp: emptyObject_def)
  have vals: "\<forall>p \<in> set (getOwnPropertyNames ?so). getProp ?so p = getProp po p"
  proof
    fix p assume "p \<in> set (getOwnPropertyNames ?so)"
    with names have "p \<noteq> ''type''" "p \<in> set (getOwnPropertyNames (newInstance t))"
      "p \<in> set (getOwnPropertyNames po)" by auto
    then have "map_of (own ?so) p = Some (getProp po p)"
      using own_in by (simp add: fold_copyProp_value)
    then show "getProp ?so p = getProp po p"
      by (simp add: getProp_def [of ?so])
  qed
  have d: "distinct (getOwnPropertyNames ?so)"
    unfolding getOwnPropertyNames_def [of ?so]
    by (rule fold_copyProp_distinct) (simp add: emptyObject_def)
  have i: "inherited ?so = []"
    by (simp add: fold_copyProp_inherited emptyObject_def)
  from r names vals d i show ?thesis by blast
qed

theorem projection_keeps_declared_own_fields_witness:
  "updateType peopleCollection personUpdate = Some personType
   \<and> (\<exists>so. assembleUpdateObject peopleCollection personUpdate = Inr so \<and>
       (\<forall>p. p \<in> set (getOwnPropertyNames so) \<longleftrightarrow>
          p \<noteq> ''type'' \<and> p \<in> set (getOwnPropertyNames (newInstance personType)) \<and>
          p \<in> set (getOwnPropertyNames personUpdate)) \<and>
       (\<forall>p \<in> set (getOwnPropertyNames so). getProp so p = getProp personUpdate p) \<and>
       distinct (getOwnPropertyNames so) \<and> inherited so = [])"
proof -
  have h: "updateType peopleCollection personUpdate = Some personType"
    by (simp add: updateType_def peopleCollection_def)
  from h projection_keeps_declared_own_fields [OF h] show ?thesis
    by (rule conjI)
qed

section \<open>Creating documents: conflicts, the batch ceiling and the stored id\<close>

text \<open>
  Claim C7. \<^verbatim>\<open>addSingle\<close> with \<^verbatim>\<open>hasID\<close> set, on a record whose id names a stored
  document, fails with the "already exists" error; the only call made to the store is the
  read of that document, and the stored documents are unchanged.
\<close>

theorem addSingle_existing_id_conflict:
  "getProp object ''id'' = Str i \<Longrightarrow> i \<noteq> [] \<Longrightarrow>
   docs db (collectionName c, i) = Some d \<Longrightarrow>
   addSingle c object True db =
     (Inl DocumentAlreadyExists, db\<lparr>calls := calls db @ [DocGet (collectionName c) i]\<rparr>)
   \<and> docs (snd (addSingle c object True db)) = docs db"
proof -
  assume i: "getProp object ''id'' = Str i" and ne: "i \<noteq> []"
    and d: "docs db (collectionName c, i) = Some d"
  from d have "acceptsPath db (collectionName c, i)"
    by (simp add: docs_def split: if_splits)
  with i ne d show ?thesis
    by (simp add: addSingle_def doc_def docGet_def docs_calls_update Let_def)
qed

theorem addSingle_existing_id_conflict_witness:
  "getProp bobWithId ''id'' = Str ''p1''
   \<and> docs sampleDb (''people'', ''p1'') = Some [(''name'', Str ''Ann'')]
   \<and> addSingle peopleCollection bobWithId True sampleDb =
       (Inl DocumentAlreadyExists, sampleDb\<lparr>calls := [DocGet ''people'' ''p1'']\<rparr>)
   \<and> docs (snd (addSingle peopleCollection bobWithId True sampleDb)) = docs sampleDb"
proof -
  have h1: "getProp bobWithId ''id'' = Str ''p1''"
    by (simp add: getProp_def bobWithId_def)
  have h2: "''p1'' \<noteq> []"
    by simp
  have h3: "docs sampleDb (collectionName peopleCollection, ''p1'') = Some [(''name'', Str ''Ann'')]"
    by code_simp
  have n: "collectionName peopleCollection = ''people''"
    by (simp add: peopleCollection_def)
  have c0: "calls sampleDb = []"
    by (simp add: sampleDb_def)
  from addSingle_existing_id_conflict [OF h1 h2 h3] h1 h3 show ?thesis
    by (simp add: n c0 docs_calls_update)
qed


text \<open>
  Claim C8. \<^verbatim>\<open>addMany\<close> with exactly 500 records that the client accepts (their data,
  and their ids where they have one) is accepted: it issues one bulk \<^verbatim>\<open>set\<close> per record,
  in order, and closes the writer. With more than 500 records it fails with the "more than
  500" error and the store is left as it was.
\<close>

theorem addMany_batch_ceiling:
  "(length objects = 500 \<and> (\<forall>ob \<in> set objects. recordAccepted db (collectionName c) ob) \<longrightarrow>
      (\<exists>ids db'. addMany c objects db = (Inr (), db') \<and> length ids = 500 \<and>
         calls db' = calls db @
           map2 (\<lambda>i ob. BulkSet (collectionName c) i (own ob)) ids objects @ [BulkClose]))
   \<and> (500 < length objects \<longrightarrow> addMany c objects db = (Inl TooManyObjects, db))"
proof (intro conjI impI)
  assume "length objects = 500 \<and> (\<forall>ob \<in> set objects. recordAccepted db (collectionName c) ob)"
  then have n: "length objects = 500"
    and ok: "\<forall>ob \<in> set objects. recordAccepted db (collectionName c) ob"
    by simp_all
  from addManyLoop_trace [OF ok, of "[]"]
  obtain ids db1 where l:
    "addManyLoop (collectionName c) objects [] db =
       (Inr (), [] @ map2 (\<lambda>i ob. (collectionName c, i, own ob)) ids objects, db1)"
    "length ids = length objects"
    "calls db1 = calls db @ map2 (\<lambda>i ob. BulkSet (collectionName c) i (own ob)) ids objects"
    by (elim exE conjE)
  let ?writer = "[] @ map2 (\<lambda>i ob. (collectionName c, i, own ob)) ids objects"
  have le: "\<not> 500 < length objects"
    by (simp add: n)
  have len: "length ids = 500"
    using l(2) by (simp only: n)
  have r: "addMany c objects db = (Inr (), bulkClose ?writer db1)"
    using le l(1) by (simp add: addMany_def)
  have t: "calls (bulkClose ?writer db1) = calls db @
           map2 (\<lambda>i ob. BulkSet (collectionName c) i (own ob)) ids objects @ [BulkClose]"
    using l(3) by (simp add: bulkClose_def)
  show "\<exists>ids db'. addMany c objects db = (Inr (), db') \<and> length ids = 500 \<and>
         calls db' = calls db @
           map2 (\<lambda>i ob. BulkSet (collectionName c) i (own ob)) ids objects @ [BulkClose]"
    by (rule exI [of _ ids], rule exI [of _ "bulkClose ?writer db1"]) (intro conjI r len t)
next
  assume "500 < length objects"
  then show "addMany c objects db = (Inl TooManyObjects, db)"
    by (simp add: addMany_def)
qed

theorem addMany_batch_ceiling_witness:
  "(\<exists>ids db'. addMany peopleCollection (replicate 500 bobWithId) sampleDb = (Inr (), db') \<and>
       length ids = 500 \<and>
       calls db' = calls sampleDb @
         map2 (\<lambda>i ob. BulkSet (collectionName peopleCollection) i (own ob)) ids
           (replicate 500 bobWithId) @ [BulkClose])
   \<and> addMany peopleCollection (replicate 501 bobWithId) sampleDb = (Inl TooManyObjects, sampleDb)"
proof -
  have h: "length (replicate 500 bobWithId) = 500 \<and>
           (\<forall>ob \<in> set (replicate 500 bobWithId).
               recordAccepted sampleDb (collectionName peopleCollection) ob)"
    by (simp add: sample_accepts_bob)
  have g: "500 < length (replicate 501 bobWithId)"
    by simp
  from addMany_batch_ceiling [of "replicate 500 bobWithId" sampleDb peopleCollection,
      THEN conjunct1, THEN mp, OF h]
    addMany_batch_ceiling [of "replicate 501 bobWithId" sampleDb peopleCollection,
      THEN conjunct2, THEN mp, OF g]
  show ?thesis by (rule conjI)
qed

text \<open>
  Claim C10. For a record of \<^verbatim>\<open>addMany\<close> that carries a non-empty string \<^verbatim>\<open>id\<close> of its
  own, in a list of at most 500 records that the client accepts, the write issued for it
  is addressed to that id and its data is the whole record, \<^verbatim>\<open>id\<close> field included.
  Every write that \<^verbatim>\<open>addSingle\<close> issues carries the record without its \<^verbatim>\<open>id\<close> field.
\<close>

theorem addMany_keeps_id_addSingle_strips_id:
  "(length objects \<le> 500 \<and> (\<forall>ob \<in> set objects. recordAccepted db (collectionName c) ob) \<and>
      k < length objects \<and>
      map_of (own (objects ! k)) ''id'' = Some (Str s) \<and> s \<noteq> [] \<longrightarrow>
      (\<exists>db' d. addMany c objects db = (Inr (), db') \<and>
         calls db' ! (length (calls db) + k) = BulkSet (collectionName c) s d \<and>
         d = own (objects ! k) \<and> map_of d ''id'' = Some (Str s)))
   \<and> (\<forall>call \<in> set (drop (length (calls db)) (calls (snd (addSingle c object hasID db)))).
        case writeData call of
          None \<Rightarrow> True
        | Some d \<Rightarrow> d = restWithoutId object \<and> map_of d ''id'' = None)"
proof (intro conjI impI)
  assume "length objects \<le> 500 \<and>
      (\<forall>ob \<in> set objects. recordAccepted db (collectionName c) ob) \<and> k < length objects \<and>
      map_of (own (objects ! k)) ''id'' = Some (Str s) \<and> s \<noteq> []"
  then have n: "length objects \<le> 500"
    and ok: "\<forall>ob \<in> set objects. recordAccepted db (collectionName c) ob"
    and k: "k < length objects"
    and i: "map_of (own (objects ! k)) ''id'' = Some (Str s)" and s: "s \<noteq> []"
    by simp_all
  from addManyLoop_trace [OF ok, of "[]"]
  obtain ids db1 where l:
    "addManyLoop (collectionName c) objects [] db =
       (Inr (), [] @ map2 (\<lambda>i ob. (collectionName c, i, own ob)) ids objects, db1)"
    "length ids = length objects"
    "calls db1 = calls db @ map2 (\<lambda>i ob. BulkSet (collectionName c) i (own ob)) ids objects"
    "\<forall>k < length objects. truthy (getProp (objects ! k) ''id'') \<longrightarrow>
          getProp (objects ! k) ''id'' = Str (ids ! k)"
    by (elim exE conjE)
  let ?writer = "[] @ map2 (\<lambda>i ob. (collectionName c, i, own ob)) ids objects"
  have g: "getProp (objects ! k) ''id'' = Str s"
    using i by (simp add: getProp_def)
  with l(4) k s have ik: "ids ! k = s" by auto
  have r: "addMany c objects db = (Inr (), bulkClose ?writer db1)"
    using n l(1) by (simp add: addMany_def)
  have "calls (bulkClose ?writer db1) ! (length (calls db) + k) =
          map2 (\<lambda>i ob. BulkSet (collectionName c) i (own ob)) ids objects ! k"
    using k l(2) by (simp add: bulkClose_def l(3) nth_append)
  also have "\<dots> = BulkSet (collectionName c) s (own (objects ! k))"
    using k l(2) ik by simp
  finally have t: "calls (bulkClose ?writer db1) ! (length (calls db) + k) =
      BulkSet (collectionName c) s (own (objects ! k))" .
  show "\<exists>db' d. addMany c objects db = (Inr (), db') \<and>
         calls db' ! (length (calls db) + k) = BulkSet (collectionName c) s d \<and>
         d = own (objects ! k) \<and> map_of d ''id'' = Some (Str s)"
    by (rule exI [of _ "bulkClose ?writer db1"], rule exI [of _ "own (objects ! k)"])
       (intro conjI r t refl i)
next
  show "\<forall>call \<in> set (drop (length (calls db)) (calls (snd (addSingle c object hasID db)))).
        case writeData call of
          None \<Rightarrow> True
        | Some d \<Rightarrow> d = restWithoutId object \<and> map_of d ''id'' = None"
    by (auto simp: addSingle_def docGet_def docSet_def collectionAdd_def docAuto_def Let_def
        restWithoutId_no_id split: sum.splits if_splits prod.splits)
qed

theorem addMany_keeps_id_addSingle_strips_id_witness:
  "(\<exists>db' d. addMany peopleCollection [bobWithId] sampleDb = (Inr (), db') \<and>
       calls db' ! (length (calls sampleDb) + 0) =
         BulkSet (collectionName peopleCollection) ''p1'' d \<and>
       d = own ([bobWithId] ! 0) \<and> map_of d ''id'' = Some (Str ''p1''))
   \<and> drop (length (calls sampleDb))
        (calls (snd (addSingle peopleCollection bobWithId False sampleDb)))
      = [CollectionAdd ''people'' ''auto'' [(''name'', Str ''Bob'')]]"
proof -
  have h: "length [bobWithId] \<le> 500 \<and>
      (\<forall>ob \<in> set [bobWithId]. recordAccepted sampleDb (collectionName peopleCollection) ob) \<and>
      0 < length [bobWithId] \<and>
      map_of (own ([bobWithId] ! 0)) ''id'' = Some (Str ''p1'') \<and> ''p1'' \<noteq> []"
    by (simp add: sample_accepts_bob) (simp add: bobWithId_def)
  have w: "drop (length (calls sampleDb))
        (calls (snd (addSingle peopleCollection bobWithId False sampleDb)))
      = [CollectionAdd ''people'' ''auto'' [(''name'', Str ''Bob'')]]"
    by code_simp
  from addMany_keeps_id_addSingle_strips_id
      [of "[bobWithId]" sampleDb peopleCollection 0 "''p1''", THEN conjunct1, THEN mp, OF h] w
  show ?thesis by (rule conjI)
qed

end
